theory Spec2Isabelle
  imports Main "HOL-Library.Char_ord" "HOL-Library.List_Lexorder" "HOL-Library.Option_ord"
begin

section \<open>Data model\<close>

text \<open>
  The two managers of the repository, \<^verbatim>\<open>VersionManager\<close> (version_manager.py) and
  \<^verbatim>\<open>DatabaseManager\<close> (database_manager.py), work on one cache directory, one pointer
  file and one S3 bucket. The embedding threads a single record through every operation:
  the files of the cache directory, the pointer file, what S3 answers, the clock, and the
  fields of the \<^verbatim>\<open>DatabaseManager\<close> instance.
\<close>

type_synonym version = string

text \<open>JSON values as \<^verbatim>\<open>json.load\<close> / \<^verbatim>\<open>json.dump\<close> see them in the pointer file.\<close>

datatype json = JNull | JBool bool | JNum int | JStr string

text \<open>
  The content of the pointer file: a JSON object (a Python dict, kept as an association
  list in key order), or bytes that \<^verbatim>\<open>json.load\<close> rejects (an empty or truncated file).
\<close>

datatype file_content = Unparsable | JObject "(string \<times> json) list"

text \<open>
  The outcome the file system gives to the next write of the pointer file:
  \<^verbatim>\<open>open(version_file, 'w')\<close> may raise (the file is then untouched), or it truncates
  the file and the write of \<^verbatim>\<open>json.dump\<close> may raise afterwards. The string is the text
  of the exception.
\<close>

datatype io_fault = NoFault | OpenFails string | DumpFails string

text \<open>
  One entry of the list that \<^verbatim>\<open>VersionManager.get_available_versions\<close> builds from the
  manifest objects of the bucket. Only the fields the operations below read are kept;
  \<^verbatim>\<open>uploaded_at\<close> is \<^verbatim>\<open>manifest.get('timestamp')\<close>, \<^verbatim>\<open>None\<close> when the manifest has no
  such key, and otherwise an ISO-8601 string that Python compares lexicographically.
\<close>

record version_info =
  info_version :: version
  uploaded_at :: "string option"

text \<open>
  A file \<^verbatim>\<open>database_{version}.sqlite\<close> of the cache directory: the version in its
  name, \<^verbatim>\<open>st_size\<close>, \<^verbatim>\<open>st_mtime\<close> (seconds), and whether sqlite can open it and count
  the rows of \<^verbatim>\<open>WeeklyStats\<close> (what \<^verbatim>\<open>_verify_database_integrity\<close> tests).
\<close>

record cached_db =
  db_version :: version
  st_size :: nat
  st_mtime :: int
  intact :: bool

text \<open>The manifest object of one version as \<^verbatim>\<open>download_database_from_s3\<close> reads it: not
  JSON, JSON without a \<^verbatim>\<open>database_snapshot\<close> entry, or the \<^verbatim>\<open>s3_key\<close> of that entry.\<close>

datatype manifest_doc =
    NotJson
  | NoSnapshotEntry
  | SnapshotAt string

text \<open>An object of the bucket that a manifest can point to: its size and whether it is a
  readable database.\<close>

record s3_object =
  obj_size :: nat
  obj_intact :: bool

text \<open>An open sqlite connection: a fresh number and the version whose file it is on.\<close>

record handle =
  handle_id :: nat
  handle_version :: version

datatype event =
    Download version
  | IntegrityCheck version bool
  | Opened nat
  | Closed nat

record state =
  s3_listing :: "version_info list option"
  s3_manifests :: "(version \<times> manifest_doc) list"
  s3_objects :: "(string \<times> s3_object) list"
  pointer_file :: "file_content option"
  pointer_fault :: io_fault
  db_files :: "cached_db list"
  manifest_files :: "version list"
  now :: int
  db_connection :: "handle option"
  inst_current_version :: "version option"
  cache_timestamp :: "int option"
  next_handle :: nat
  trace :: "event list"

section \<open>Configuration (config.py)\<close>

definition DATABASE_CACHE_TTL :: int where
  "DATABASE_CACHE_TTL = 3600"


section \<open>VersionManager (version_manager.py)\<close>

text \<open>
  \<^verbatim>\<open>list.sort(key=..., reverse=True)\<close> and \<^verbatim>\<open>sorted(..., reverse=True)\<close>: a stable sort
  in descending key order (elements with equal keys keep their order). Comparing
  \<^verbatim>\<open>None\<close> with anything raises \<^verbatim>\<open>TypeError\<close>, and a list of two or more elements
  compares every element at least once; the result is then \<open>None\<close>.
\<close>

definition sorted_reverse :: "('a \<Rightarrow> string option) \<Rightarrow> 'a list \<Rightarrow> 'a list option" where
  "sorted_reverse key xs =
     (if 2 \<le> length xs \<and> list_ex (\<lambda>x. key x = None) xs then None
      else Some (rev (sort_key key (rev xs))))"

text \<open>
  \<^verbatim>\<open>get_available_versions\<close>: \<open>s3_listing\<close> is the list \<^verbatim>\<open>versions\<close> as the loop over
  the listed manifest keys leaves it (\<open>None\<close> when \<^verbatim>\<open>list_objects_v2\<close> raises). The
  function sorts it newest first; every exception, the sort's included, gives \<^verbatim>\<open>[]\<close>.
\<close>

definition get_available_versions :: "state \<Rightarrow> version_info list" where
  "get_available_versions s =
     (case s3_listing s of
        None \<Rightarrow> []
      | Some versions \<Rightarrow>
          (case sorted_reverse uploaded_at versions of
             None \<Rightarrow> []
           | Some sorted_versions \<Rightarrow> sorted_versions))"

text \<open>
  \<^verbatim>\<open>get_current_version\<close>: \<^verbatim>\<open>version_data.get('version')\<close> of the pointer file, \<^verbatim>\<open>None\<close>
  when the file is missing or does not parse. Every writer of the file stores a string
  under \<^verbatim>\<open>'version'\<close>; a missing key or \<^verbatim>\<open>null\<close> reads as \<^verbatim>\<open>None\<close>.
\<close>

definition get_current_version :: "state \<Rightarrow> version option" where
  "get_current_version s =
     (case pointer_file s of
        None \<Rightarrow> None
      | Some Unparsable \<Rightarrow> None
      | Some (JObject version_data) \<Rightarrow>
          (case map_of version_data ''version'' of
             Some (JStr v) \<Rightarrow> Some v
           | _ \<Rightarrow> None))"

text \<open>Any other key of the stored pointer record, read the same way
  (\<^verbatim>\<open>json.load(f).get(key)\<close>); \<open>None\<close> when there is no parsable file or no such key.\<close>

definition pointer_field :: "string \<Rightarrow> state \<Rightarrow> json option" where
  "pointer_field key s =
     (case pointer_file s of
        Some (JObject version_data) \<Rightarrow> map_of version_data key
      | _ \<Rightarrow> None)"

text \<open>
  \<^verbatim>\<open>with open(version_file, 'w') as f: json.dump(version_data, f, indent=2)\<close>.
  Opening for writing truncates the file in place (an empty file does not parse); the
  record is written into it afterwards. The result is the state the statement leaves
  and the text of the exception, if one was raised.
\<close>

definition write_version_file :: "state \<Rightarrow> (string \<times> json) list \<Rightarrow> state \<times> string option" where
  "write_version_file s version_data =
     (case pointer_fault s of
        OpenFails e \<Rightarrow> (s, Some e)
      | DumpFails e \<Rightarrow> (s\<lparr>pointer_file := Some Unparsable\<rparr>, Some e)
      | NoFault \<Rightarrow> (s\<lparr>pointer_file := Some (JObject version_data)\<rparr>, None))"

text \<open>\<^verbatim>\<open>_invalidate_cache\<close>: unlink the cached database and the cached manifest of one
  version, each only if it exists.\<close>

definition invalidate_cache :: "version \<Rightarrow> state \<Rightarrow> state" where
  "invalidate_cache v s =
     s\<lparr>db_files := filter (\<lambda>f. db_version f \<noteq> v) (db_files s),
       manifest_files := filter (\<lambda>m. m \<noteq> v) (manifest_files s)\<rparr>"

text \<open>Python's \<^verbatim>\<open>json.dump\<close> of an \<^verbatim>\<open>Optional[str]\<close>.\<close>

definition json_of_optional :: "string option \<Rightarrow> json" where
  "json_of_optional x = (case x of None \<Rightarrow> JNull | Some v \<Rightarrow> JStr v)"

text \<open>
  \<^verbatim>\<open>promote_version(version, force)\<close>, returning the new state and the pair
  \<^verbatim>\<open>(success, message)\<close>. \<^verbatim>\<open>promoted_at\<close> holds the clock reading (the source stores its
  ISO-8601 rendering). The test \<^verbatim>\<open>if current_version and current_version != version\<close>
  is Python truthiness: \<^verbatim>\<open>None\<close> and the empty string are both false.
\<close>

definition promote_version :: "state \<Rightarrow> version \<Rightarrow> bool \<Rightarrow> state \<times> (bool \<times> string)" where
  "promote_version s version force =
     (let available_versions = get_available_versions s;
          version_exists = list_ex (\<lambda>v. info_version v = version) available_versions
      in if \<not> version_exists \<and> \<not> force
         then (s, (False, ''Version '' @ version @ '' not found in available versions''))
         else
           let current_version = get_current_version s;
               version_data =
                 [(''version'', JStr version),
                  (''previous_version'', json_of_optional current_version),
                  (''promoted_at'', JNum (now s)),
                  (''promoted_by'', JStr ''version_manager''),
                  (''force_promotion'', JBool force)]
           in case write_version_file s version_data of
                (s1, Some e) \<Rightarrow> (s1, (False, ''Error promoting version: '' @ e))
              | (s1, None) \<Rightarrow>
                  (case current_version of
                     Some c \<Rightarrow>
                       if c \<noteq> [] \<and> c \<noteq> version
                       then (invalidate_cache c s1,
                             (True, ''Version '' @ version @ '' promoted successfully''))
                       else (s1, (True, ''Version '' @ version @ '' promoted successfully''))
                   | None \<Rightarrow> (s1, (True, ''Version '' @ version @ '' promoted successfully''))))"

text \<open>
  The loop of \<^verbatim>\<open>cleanup_old_versions\<close> that picks the versions to remove:
  \<^verbatim>\<open>for i, version_info in enumerate(sorted_versions)\<close>, keeping an entry when it is the
  current version or its index is below \<^verbatim>\<open>keep_count\<close>.
\<close>

fun versions_to_remove :: "version option \<Rightarrow> int \<Rightarrow> nat \<Rightarrow> version_info list \<Rightarrow> version list" where
  "versions_to_remove current_version keep_count i [] = []"
| "versions_to_remove current_version keep_count i (version_info # rest) =
     (if Some (info_version version_info) \<noteq> current_version \<and> int i \<ge> keep_count
      then info_version version_info # versions_to_remove current_version keep_count (Suc i) rest
      else versions_to_remove current_version keep_count (Suc i) rest)"

text \<open>The second loop: \<^verbatim>\<open>_invalidate_cache\<close> for each picked version, in order.\<close>

fun remove_cached :: "version list \<Rightarrow> state \<Rightarrow> state" where
  "remove_cached [] s = s"
| "remove_cached (v # vs) s = remove_cached vs (invalidate_cache v s)"

text \<open>\<^verbatim>\<open>cleanup_old_versions(keep_count)\<close>, returning the new state and
  \<^verbatim>\<open>(cleaned_count, removed_versions)\<close>; an exception of the second sort gives \<^verbatim>\<open>(0, [])\<close>.\<close>

definition cleanup_old_versions :: "state \<Rightarrow> int \<Rightarrow> state \<times> (nat \<times> version list)" where
  "cleanup_old_versions s keep_count =
     (let available_versions = get_available_versions s;
          current_version = get_current_version s
      in case sorted_reverse uploaded_at available_versions of
           None \<Rightarrow> (s, (0, []))
         | Some sorted_versions \<Rightarrow>
             let removed_versions = versions_to_remove current_version keep_count 0 sorted_versions
             in (remove_cached removed_versions s, (length removed_versions, removed_versions)))"

section \<open>DatabaseManager (database_manager.py)\<close>

text \<open>\<^verbatim>\<open>__init__\<close>: a new manager holds no connection. The trace of connection and
  download events starts empty with the process.\<close>

definition DatabaseManager_init :: "state \<Rightarrow> state" where
  "DatabaseManager_init s =
     s\<lparr>db_connection := None, inst_current_version := None, cache_timestamp := None,
       next_handle := 0, trace := []\<rparr>"

text \<open>
  \<^verbatim>\<open>set_current_version\<close>: the same in-place write of the pointer file, with the record
  \<^verbatim>\<open>{version, updated_at, updated_by}\<close>; returns whether it went through.
\<close>

definition set_current_version :: "state \<Rightarrow> version \<Rightarrow> state \<times> bool" where
  "set_current_version s version =
     (let version_data =
            [(''version'', JStr version),
             (''updated_at'', JNum (now s)),
             (''updated_by'', JStr ''api'')]
      in case write_version_file s version_data of
           (s1, Some e) \<Rightarrow> (s1, False)
         | (s1, None) \<Rightarrow> (s1, True))"

text \<open>The file \<^verbatim>\<open>get_database_cache_path(version)\<close>, if it exists.\<close>

definition find_db :: "version \<Rightarrow> state \<Rightarrow> cached_db option" where
  "find_db version s = find (\<lambda>f. db_version f = version) (db_files s)"

text \<open>
  \<^verbatim>\<open>is_cache_valid\<close>: the file exists, its age \<^verbatim>\<open>now - st_mtime\<close> is not above the TTL,
  and \<^verbatim>\<open>_verify_database_integrity\<close> accepts it. The integrity check opens a connection
  of its own and drops it before returning; it is not the manager's handle and leaves
  no event.
\<close>

definition is_cache_valid :: "state \<Rightarrow> version \<Rightarrow> bool" where
  "is_cache_valid s version =
     (case find_db version s of
        None \<Rightarrow> False
      | Some db \<Rightarrow>
          if now s - st_mtime db > DATABASE_CACHE_TTL then False
          else intact db)"

text \<open>
  Writing a file into the cache directory: an existing file of that name is replaced
  where it stands, a new one is listed last (the order of the list is the order in which
  \<^verbatim>\<open>glob\<close> yields the directory, which nothing below depends on except for ties).
\<close>

definition put_db :: "cached_db \<Rightarrow> cached_db list \<Rightarrow> cached_db list" where
  "put_db f fs =
     (if list_ex (\<lambda>g. db_version g = db_version f) fs
      then map (\<lambda>g. if db_version g = db_version f then f else g) fs
      else fs @ [f])"

definition put_manifest :: "version \<Rightarrow> version list \<Rightarrow> version list" where
  "put_manifest v ms = (if v \<in> set ms then ms else ms @ [v])"

text \<open>
  \<^verbatim>\<open>download_database_from_s3\<close>. A manifest that S3 does not have makes
  \<^verbatim>\<open>download_file\<close> raise before anything is written. Otherwise the manifest lands in the
  cache; it may fail to parse, may lack a \<^verbatim>\<open>database_snapshot\<close> entry, or names the key
  of the snapshot. A snapshot that S3 does not have raises as well. A downloaded
  snapshot gets the clock reading as modification time, is checked, and is unlinked
  again when the check fails.
\<close>

definition download_database_from_s3 :: "state \<Rightarrow> version \<Rightarrow> state \<times> bool" where
  "download_database_from_s3 s version =
     (case map_of (s3_manifests s) version of
        None \<Rightarrow> (s, False)
      | Some manifest \<Rightarrow>
          (let s1 = s\<lparr>manifest_files := put_manifest version (manifest_files s)\<rparr>
           in (case manifest of
                 NotJson \<Rightarrow> (s1, False)
               | NoSnapshotEntry \<Rightarrow> (s1, False)
               | SnapshotAt s3_key \<Rightarrow>
                   (case map_of (s3_objects s1) s3_key of
                      None \<Rightarrow> (s1, False)
                    | Some obj \<Rightarrow>
                        (let db = \<lparr>db_version = version, st_size = obj_size obj,
                                   st_mtime = now s1, intact = obj_intact obj\<rparr>;
                             s2 = s1\<lparr>db_files := put_db db (db_files s1),
                                     trace := trace s1 @ [Download version]\<rparr>
                         in if obj_intact obj
                            then (s2\<lparr>trace := trace s2 @ [IntegrityCheck version True]\<rparr>, True)
                            else (s2\<lparr>db_files :=
                                        filter (\<lambda>g. db_version g \<noteq> version) (db_files s2),
                                      trace := trace s2 @ [IntegrityCheck version False]\<rparr>,
                                  False))))))"

text \<open>\<^verbatim>\<open>if self._db_connection: self._db_connection.close()\<close>.\<close>

definition close_existing :: "state \<Rightarrow> state" where
  "close_existing s =
     (case db_connection s of
        None \<Rightarrow> s
      | Some h \<Rightarrow> s\<lparr>trace := trace s @ [Closed (handle_id h)]\<rparr>)"

text \<open>\<^verbatim>\<open>sqlite3.connect\<close> on the cached file of the version, stored in the manager.\<close>

definition open_new :: "state \<Rightarrow> version \<Rightarrow> state" where
  "open_new s version =
     s\<lparr>db_connection := Some \<lparr>handle_id = next_handle s, handle_version = version\<rparr>,
       inst_current_version := Some version,
       cache_timestamp := Some (now s),
       next_handle := Suc (next_handle s),
       trace := trace s @ [Opened (next_handle s)]\<rparr>"

text \<open>\<^verbatim>\<open>if version is None: version = self.get_current_version()\<close>.\<close>

definition requested :: "state \<Rightarrow> version option \<Rightarrow> version option" where
  "requested s version_arg =
     (case version_arg of None \<Rightarrow> get_current_version s | Some v \<Rightarrow> Some v)"

text \<open>
  \<^verbatim>\<open>get_database_connection(version)\<close>, returning the new state and the connection or
  \<^verbatim>\<open>None\<close>. \<^verbatim>\<open>if not version\<close> rejects \<^verbatim>\<open>None\<close> and the empty string. The clock is read
  once for the whole call.
\<close>

definition get_database_connection :: "state \<Rightarrow> version option \<Rightarrow> state \<times> handle option" where
  "get_database_connection s version_arg =
     (case requested s version_arg of
        None \<Rightarrow> (s, None)
      | Some version \<Rightarrow>
          if version = [] then (s, None)
          else if inst_current_version s \<noteq> Some version
                  \<or> \<not> is_cache_valid s version
                  \<or> db_connection s = None
          then
            (case (if \<not> is_cache_valid s version
                   then download_database_from_s3 s version
                   else (s, True)) of
               (s1, False) \<Rightarrow> (s1, None)
             | (s1, True) \<Rightarrow>
                 let s2 = open_new (close_existing s1) version
                 in (s2, db_connection s2))
          else (s, db_connection s))"

text \<open>\<^verbatim>\<open>close\<close>: close the held connection and forget it.\<close>

definition close :: "state \<Rightarrow> state" where
  "close s =
     (case db_connection s of
        None \<Rightarrow> s
      | Some h \<Rightarrow> s\<lparr>db_connection := None, trace := trace s @ [Closed (handle_id h)]\<rparr>)"






section \<open>Notions used to state the properties\<close>



text \<open>The connections that are open after a sequence of events, newest first.\<close>

fun apply_event :: "nat list \<Rightarrow> event \<Rightarrow> nat list" where
  "apply_event hs (Opened n) = n # hs"
| "apply_event hs (Closed n) = removeAll n hs"
| "apply_event hs (Download v) = hs"
| "apply_event hs (IntegrityCheck v ok) = hs"

definition open_handles :: "event list \<Rightarrow> nat list" where
  "open_handles es = foldl apply_event [] es"

text \<open>At most one connection is open before, between and after the events \<open>es\<close>, starting
  with the connections \<open>hs\<close> open.\<close>

fun within_one :: "nat list \<Rightarrow> event list \<Rightarrow> bool" where
  "within_one hs [] = (length hs \<le> 1)"
| "within_one hs (e # es) = (length hs \<le> 1 \<and> within_one (apply_event hs e) es)"

text \<open>The connection the manager holds in \<^verbatim>\<open>_db_connection\<close>, as a list.\<close>

definition held :: "state \<Rightarrow> nat list" where
  "held s = (case db_connection s of None \<Rightarrow> [] | Some h \<Rightarrow> [handle_id h])"

definition disciplined :: "state \<Rightarrow> bool" where
  "disciplined s \<longleftrightarrow> within_one [] (trace s) \<and> open_handles (trace s) = held s"

text \<open>
  The states a manager instance goes through: it starts with \<^verbatim>\<open>__init__\<close>, its owner
  calls \<^verbatim>\<open>get_database_connection\<close> and \<^verbatim>\<open>close\<close>, and between the calls anything may
  happen to the files, the pointer, the bucket and the clock, but not to the fields of
  the instance or to its connections.
\<close>

inductive reachable :: "state \<Rightarrow> bool" where
  init: "reachable (DatabaseManager_init s)"
| acquire: "reachable s \<Longrightarrow> reachable (fst (get_database_connection s version_arg))"
| closed: "reachable s \<Longrightarrow> reachable (close s)"
| outside: "reachable s \<Longrightarrow> db_connection s' = db_connection s \<Longrightarrow>
     inst_current_version s' = inst_current_version s \<Longrightarrow>
     cache_timestamp s' = cache_timestamp s \<Longrightarrow>
     next_handle s' = next_handle s \<Longrightarrow> trace s' = trace s \<Longrightarrow> reachable s'"

section \<open>Example states\<close>

definition empty_world :: state where
  "empty_world =
     \<lparr>s3_listing = Some [], s3_manifests = [], s3_objects = [], pointer_file = None,
      pointer_fault = NoFault, db_files = [], manifest_files = [], now = 0,
      db_connection = None, inst_current_version = None, cache_timestamp = None,
      next_handle = 0, trace = []\<rparr>"

definition cached :: "version \<Rightarrow> nat \<Rightarrow> int \<Rightarrow> cached_db" where
  "cached v sz t = \<lparr>db_version = v, st_size = sz, st_mtime = t, intact = True\<rparr>"

text \<open>Five published versions, \<^verbatim>\<open>v5\<close> the newest and the current one, all five cached.\<close>

definition five_versions :: state where
  "five_versions = empty_world\<lparr>
     s3_listing := Some [\<lparr>info_version = ''v1'', uploaded_at = Some ''2024-01-01T00:00:00''\<rparr>,
                         \<lparr>info_version = ''v2'', uploaded_at = Some ''2024-01-02T00:00:00''\<rparr>,
                         \<lparr>info_version = ''v3'', uploaded_at = Some ''2024-01-03T00:00:00''\<rparr>,
                         \<lparr>info_version = ''v4'', uploaded_at = Some ''2024-01-04T00:00:00''\<rparr>,
                         \<lparr>info_version = ''v5'', uploaded_at = Some ''2024-01-05T00:00:00''\<rparr>],
     pointer_file := Some (JObject [(''version'', JStr ''v5'')]),
     db_files := [cached ''v1'' 10 1, cached ''v2'' 10 2, cached ''v3'' 10 3,
                  cached ''v4'' 10 4, cached ''v5'' 10 5],
     manifest_files := [''v1'', ''v2'', ''v3'', ''v4'', ''v5'']\<rparr>"

text \<open>Two published versions and nothing promoted yet.\<close>

definition fresh_install :: state where
  "fresh_install = empty_world\<lparr>
     s3_listing := Some [\<lparr>info_version = ''v1'', uploaded_at = Some ''2024-01-01T00:00:00''\<rparr>,
                         \<lparr>info_version = ''v2'', uploaded_at = Some ''2024-01-02T00:00:00''\<rparr>],
     now := 50\<rparr>"

text \<open>The same catalog with \<^verbatim>\<open>v1\<close> promoted and both versions cached.\<close>

definition two_versions :: state where
  "two_versions = fresh_install\<lparr>
     pointer_file := Some (JObject [(''version'', JStr ''v1''),
                                    (''previous_version'', JNull),
                                    (''promoted_at'', JNum 7),
                                    (''promoted_by'', JStr ''version_manager''),
                                    (''force_promotion'', JBool False)]),
     db_files := [cached ''v1'' 10 8, cached ''v2'' 10 9],
     manifest_files := [''v1'', ''v2'']\<rparr>"

text \<open>The same, on a volume that accepts the open and fails the write.\<close>

definition disk_full :: state where
  "disk_full = two_versions\<lparr>pointer_fault := DumpFails ''No space left on device''\<rparr>"

text \<open>The same after a forced promotion of \<^verbatim>\<open>v9\<close>, which the catalog does not list.\<close>

definition forced_unlisted :: state where
  "forced_unlisted = fst (promote_version two_versions ''v9'' True)"

text \<open>Three cached versions, the current one the oldest.\<close>

definition three_cached :: state where
  "three_cached = two_versions\<lparr>
     db_files := [cached ''v3'' 10 30, cached ''v1'' 10 10, cached ''v2'' 10 20]\<rparr>"

text \<open>The current version's file alone is 6 GiB, next to a newer file of 1 GiB.\<close>

definition oversized_current :: state where
  "oversized_current = two_versions\<lparr>
     db_files := [cached ''v1'' 6442450944 10, cached ''v2'' 1073741824 20]\<rparr>"

text \<open>
  A manager that has been serving \<^verbatim>\<open>v1\<close> for more than an hour: its cached file is
  intact but 4000 seconds old, and the bucket still holds the same snapshot.
\<close>

definition serving :: state where
  "serving = two_versions\<lparr>
     s3_manifests := [(''v1'', SnapshotAt ''snapshots/database_v1.sqlite'')],
     s3_objects := [(''snapshots/database_v1.sqlite'', \<lparr>obj_size = 10, obj_intact = True\<rparr>)],
     db_files := [cached ''v1'' 10 1000],
     manifest_files := [''v1''],
     now := 5000,
     db_connection := Some \<lparr>handle_id = 0, handle_version = ''v1''\<rparr>,
     inst_current_version := Some ''v1'',
     cache_timestamp := Some 1000,
     next_handle := 1,
     trace := [Opened 0]\<rparr>"

lemmas example_defs =
  empty_world_def cached_def five_versions_def fresh_install_def two_versions_def disk_full_def
  three_cached_def oversized_current_def serving_def forced_unlisted_def

section \<open>Ranking and count-bounded cleanup\<close>

lemma sorted_reverse_idem:
  assumes "sorted_reverse key xs = Some ys"
  shows "sorted_reverse key ys = Some ys"
proof -
  from assms have ok: "\<not> (2 \<le> length xs \<and> list_ex (\<lambda>x. key x = None) xs)"
    and ys: "ys = rev (sort_key key (rev xs))"
    by (auto simp: sorted_reverse_def split: if_splits)
  have len: "length ys = length xs" by (simp add: ys)
  have st: "set ys = set xs" by (simp add: ys)
  have "sort_key key (rev ys) = sort_key key (rev xs)"
    by (simp add: ys sort_key_id_if_sorted)
  with ok len st show ?thesis
    by (simp add: sorted_reverse_def ys list_ex_iff)
qed

lemma get_available_versions_resort:
  "sorted_reverse uploaded_at (get_available_versions s) = Some (get_available_versions s)"
proof -
  have nil: "sorted_reverse uploaded_at ([] :: version_info list) = Some []"
    by (simp add: sorted_reverse_def)
  show ?thesis
    by (simp add: get_available_versions_def sorted_reverse_idem nil split: option.splits)
qed

lemma get_available_versions_newest_first:
  "sorted (rev (map uploaded_at (get_available_versions s)))"
  by (auto simp: get_available_versions_def sorted_reverse_def rev_map [symmetric]
      split: option.splits if_splits)

lemma versions_to_remove_drop:
  "versions_to_remove cur k i xs =
     map info_version (filter (\<lambda>v. Some (info_version v) \<noteq> cur) (drop (nat (k - int i)) xs))"
proof (induction xs arbitrary: i)
  case Nil
  then show ?case by simp
next
  case (Cons x xs)
  have step: "nat (k - int i) - 1 = nat (k - int (Suc i))" by simp
  show ?case
  proof (cases "int i \<ge> k")
    case True
    then show ?thesis using Cons.IH [of "Suc i"] by simp
  next
    case False
    then have "nat (k - int i) \<noteq> 0" by simp
    then show ?thesis using Cons.IH [of "Suc i"] False step
      by (simp add: drop_Cons' del: of_nat_Suc)
  qed
qed

lemma remove_cached_eq:
  "remove_cached vs s =
     s\<lparr>db_files := filter (\<lambda>f. db_version f \<notin> set vs) (db_files s),
       manifest_files := filter (\<lambda>m. m \<notin> set vs) (manifest_files s)\<rparr>"
proof (induction vs arbitrary: s)
  case Nil
  then show ?case by simp
next
  case (Cons v vs)
  show ?case
    by (simp add: Cons.IH invalidate_cache_def conj_commute)
qed

lemmas cleanup_eval =
  cleanup_old_versions_def get_available_versions_def sorted_reverse_def
  get_current_version_def invalidate_cache_def

text \<open>
  C1, as the code has it. \<^verbatim>\<open>cleanup_old_versions(keep_count)\<close> ranks the known versions
  newest first by upload time and removes the cached database and manifest of every
  version whose rank is \<open>keep_count\<close> or more, the current version excepted. What stays
  is the first \<open>keep_count\<close> versions of the ranking, the current one among them when it
  is recent enough, and the current version; the returned pair is the number and the list
  of the versions removed.
\<close>

theorem cleanup_old_versions_keeps_first_ranks:
  "cleanup_old_versions s keep_count =
     (let removed = map info_version
                      (filter (\<lambda>v. Some (info_version v) \<noteq> get_current_version s)
                         (drop (nat keep_count) (get_available_versions s)))
      in (s\<lparr>db_files := filter (\<lambda>f. db_version f \<notin> set removed) (db_files s),
            manifest_files := filter (\<lambda>m. m \<notin> set removed) (manifest_files s)\<rparr>,
          (length removed, removed)))
   \<and> sorted (rev (map uploaded_at (get_available_versions s)))"
  by (simp add: cleanup_old_versions_def get_available_versions_resort versions_to_remove_drop
      remove_cached_eq get_available_versions_newest_first Let_def)

theorem cleanup_old_versions_keeps_first_ranks_witness:
  "snd (cleanup_old_versions five_versions 3) = (2, [''v2'', ''v1''])
   \<and> map db_version (db_files (fst (cleanup_old_versions five_versions 3))) = [''v3'', ''v4'', ''v5'']
   \<and> manifest_files (fst (cleanup_old_versions five_versions 3)) = [''v3'', ''v4'', ''v5'']"
  using cleanup_old_versions_keeps_first_ranks [of five_versions 3]
  by (simp add: example_defs get_available_versions_def sorted_reverse_def get_current_version_def)

text \<open>
  C1 as stated fails on its own example: with \<open>keep_count = 2\<close>, five versions and
  \<^verbatim>\<open>v5\<close> current, the current version takes one of the two kept ranks, so \<^verbatim>\<open>v3\<close> is
  removed together with \<^verbatim>\<open>v2\<close> and \<^verbatim>\<open>v1\<close>.
\<close>

theorem cleanup_keep_two_of_five_counterexample:
  "snd (cleanup_old_versions five_versions 2) = (3, [''v3'', ''v2'', ''v1''])
   \<and> snd (snd (cleanup_old_versions five_versions 2)) \<noteq> [''v2'', ''v1'']
   \<and> map db_version (db_files (fst (cleanup_old_versions five_versions 2))) = [''v4'', ''v5'']"
  by (simp add: example_defs cleanup_eval)

section \<open>Promotion\<close>

lemma get_current_version_invalidate_cache:
  "get_current_version (invalidate_cache c s) = get_current_version s"
  by (simp add: get_current_version_def invalidate_cache_def)

lemma pointer_file_invalidate_cache:
  "pointer_file (invalidate_cache c s) = pointer_file s"
  by (simp add: invalidate_cache_def)

lemmas promote_unfold =
  promote_version_def write_version_file_def Let_def pointer_file_invalidate_cache

lemma promote_success_iff:
  "fst (snd (promote_version s V force)) \<longleftrightarrow>
     (list_ex (\<lambda>v. info_version v = V) (get_available_versions s) \<or> force)
     \<and> pointer_fault s = NoFault"
  by (auto simp: promote_unfold split: io_fault.splits option.splits)

lemma promote_success_pointer:
  "fst (snd (promote_version s V force)) \<Longrightarrow>
   pointer_file (fst (promote_version s V force)) =
     Some (JObject [(''version'', JStr V),
                    (''previous_version'', json_of_optional (get_current_version s)),
                    (''promoted_at'', JNum (now s)),
                    (''promoted_by'', JStr ''version_manager''),
                    (''force_promotion'', JBool force)])"
  by (auto simp: promote_unfold split: io_fault.splits option.splits if_splits)

lemma promote_success_message:
  "fst (snd (promote_version s V force)) \<Longrightarrow>
   snd (promote_version s V force) = (True, ''Version '' @ V @ '' promoted successfully'')"
  by (auto simp: promote_unfold split: io_fault.splits option.splits if_splits)

lemma promote_failure_pointer:
  "\<not> fst (snd (promote_version s V force)) \<Longrightarrow>
   pointer_file (fst (promote_version s V force)) =
     (case pointer_fault s of
        DumpFails e \<Rightarrow>
          if list_ex (\<lambda>v. info_version v = V) (get_available_versions s) \<or> force
          then Some Unparsable else pointer_file s
      | _ \<Rightarrow> pointer_file s)"
  by (auto simp: promote_unfold split: io_fault.splits option.splits if_splits)



lemma promote_success_reads:
  assumes "fst (snd (promote_version s V force))"
  shows "get_current_version (fst (promote_version s V force)) = Some V"
    and "pointer_field ''previous_version'' (fst (promote_version s V force)) =
           Some (json_of_optional (get_current_version s))"
    and "pointer_field ''force_promotion'' (fst (promote_version s V force)) = Some (JBool force)"
  by (simp_all add: promote_success_pointer [OF assms] get_current_version_def pointer_field_def)

lemmas promote_eval =
  promote_version_def write_version_file_def get_available_versions_def sorted_reverse_def
  get_current_version_def pointer_field_def invalidate_cache_def json_of_optional_def Let_def

text \<open>
  C3. Whenever \<^verbatim>\<open>promote_version(V)\<close> succeeds, reading the pointer afterwards gives
  \<open>V\<close> as the current version, and the \<^verbatim>\<open>previous_version\<close> stored in the pointer is
  the version that was current just before the promotion (\<^verbatim>\<open>null\<close> when there was
  none). This holds for every prior pointer state, catalogued \<open>V\<close> or forced.
\<close>

theorem promote_then_read_pointer:
  "fst (snd (promote_version s V force)) \<Longrightarrow>
   get_current_version (fst (promote_version s V force)) = Some V
   \<and> pointer_field ''previous_version'' (fst (promote_version s V force)) =
       Some (json_of_optional (get_current_version s))"
  by (simp add: promote_success_reads)

theorem promote_then_read_pointer_witness:
  "fst (snd (promote_version two_versions ''v2'' False))
   \<and> get_current_version two_versions = Some ''v1''
   \<and> get_current_version (fst (promote_version two_versions ''v2'' False)) = Some ''v2''
   \<and> pointer_field ''previous_version'' (fst (promote_version two_versions ''v2'' False)) =
       Some (JStr ''v1'')"
proof -
  have ok: "fst (snd (promote_version two_versions ''v2'' False))"
    by (simp add: example_defs promote_eval)
  have cur: "get_current_version two_versions = Some ''v1''"
    by (simp add: example_defs get_current_version_def)
  show ?thesis
    using promote_then_read_pointer [OF ok] ok cur by (simp add: json_of_optional_def)
qed

text \<open>
  C4. A version that the catalog listing does not contain is refused by
  \<^verbatim>\<open>promote_version(V, force=False)\<close>: the call returns failure with the "not found"
  message and leaves the whole state, the pointer included, as it was. With
  \<^verbatim>\<open>force=True\<close> the catalog plays no part: whether or not \<open>V\<close> is listed, the promotion
  succeeds as soon as the pointer file can be written, the pointer then reads \<open>V\<close> and
  its record carries \<^verbatim>\<open>force_promotion = true\<close>.
\<close>

theorem promote_absent_version:
  "(\<not> list_ex (\<lambda>v. info_version v = V) (get_available_versions s) \<longrightarrow>
      promote_version s V False =
        (s, (False, ''Version '' @ V @ '' not found in available versions'')))
   \<and> (pointer_fault s = NoFault \<longrightarrow>
        fst (snd (promote_version s V True))
        \<and> get_current_version (fst (promote_version s V True)) = Some V
        \<and> pointer_field ''force_promotion'' (fst (promote_version s V True)) = Some (JBool True))"
proof (intro conjI impI)
  assume "\<not> list_ex (\<lambda>v. info_version v = V) (get_available_versions s)"
  then show "promote_version s V False =
      (s, (False, ''Version '' @ V @ '' not found in available versions''))"
    by (simp add: promote_version_def)
next
  assume "pointer_fault s = NoFault"
  then show ok: "fst (snd (promote_version s V True))"
    by (simp add: promote_success_iff)
  show "get_current_version (fst (promote_version s V True)) = Some V"
    by (rule promote_success_reads(1) [OF ok])
  show "pointer_field ''force_promotion'' (fst (promote_version s V True)) = Some (JBool True)"
    by (rule promote_success_reads(3) [OF ok])
qed

theorem promote_absent_version_witness:
  "\<not> list_ex (\<lambda>v. info_version v = ''v9'') (get_available_versions two_versions)
   \<and> pointer_fault two_versions = NoFault
   \<and> promote_version two_versions ''v9'' False =
       (two_versions, (False, ''Version v9 not found in available versions''))
   \<and> fst (snd (promote_version two_versions ''v9'' True))
   \<and> get_current_version (fst (promote_version two_versions ''v9'' True)) = Some ''v9''
   \<and> pointer_field ''force_promotion'' (fst (promote_version two_versions ''v9'' True)) =
       Some (JBool True)"
proof -
  have absent: "\<not> list_ex (\<lambda>v. info_version v = ''v9'') (get_available_versions two_versions)"
    by (simp add: example_defs get_available_versions_def sorted_reverse_def)
  have nofault: "pointer_fault two_versions = NoFault"
    by (simp add: example_defs)
  show ?thesis
    using promote_absent_version [of "''v9''" two_versions] absent nofault by simp
qed

text \<open>
  C8, as the code has it. A successful \<^verbatim>\<open>promote_version(V)\<close> returns the pair
  \<^verbatim>\<open>(True, "Version V promoted successfully")\<close>. The previously current version is not
  part of the return value; it is kept in the \<^verbatim>\<open>previous_version\<close> field of the pointer
  record that the call writes.
\<close>

theorem promote_returns_message:
  "fst (snd (promote_version s V force)) \<Longrightarrow>
   snd (promote_version s V force) = (True, ''Version '' @ V @ '' promoted successfully'')
   \<and> pointer_field ''previous_version'' (fst (promote_version s V force)) =
       Some (json_of_optional (get_current_version s))"
  by (simp add: promote_success_message promote_success_reads)

theorem promote_returns_message_witness:
  "fst (snd (promote_version fresh_install ''v1'' False))
   \<and> snd (promote_version fresh_install ''v1'' False) = (True, ''Version v1 promoted successfully'')
   \<and> pointer_field ''previous_version'' (fst (promote_version fresh_install ''v1'' False)) =
       Some JNull"
proof -
  have ok: "fst (snd (promote_version fresh_install ''v1'' False))"
    by (simp add: example_defs promote_eval)
  have cur: "get_current_version fresh_install = None"
    by (simp add: example_defs get_current_version_def)
  show ?thesis
    using promote_returns_message [OF ok] ok cur by (simp add: json_of_optional_def)
qed

text \<open>
  C8 as stated fails: promoting \<^verbatim>\<open>v2\<close> over the current version \<^verbatim>\<open>v1\<close>, and promoting
  \<^verbatim>\<open>v2\<close> where nothing was current, return the same pair, so the caller cannot read the
  previous version off the result.
\<close>

theorem promote_result_omits_previous_counterexample:
  "get_current_version two_versions = Some ''v1''
   \<and> get_current_version fresh_install = None
   \<and> snd (promote_version two_versions ''v2'' False) = (True, ''Version v2 promoted successfully'')
   \<and> snd (promote_version fresh_install ''v2'' False) = (True, ''Version v2 promoted successfully'')"
  by (simp add: example_defs promote_eval)




text \<open>
  C2, as the code has it. \<^verbatim>\<open>promote_version\<close> and \<^verbatim>\<open>set_current_version\<close> write the
  pointer file in place: the file is opened for writing, which truncates it, and the
  full record is serialized into it; there is no temporary file and no rename. A call
  that succeeds leaves the full record. A call that fails has left the stored pointer
  untouched when the version was refused or the open failed; when the write fails after
  the open, the pointer file is left unparsable and reads as "no current version".
\<close>

theorem pointer_written_in_place:
  "(fst (snd (promote_version s V force)) \<longrightarrow>
      pointer_file (fst (promote_version s V force)) =
        Some (JObject [(''version'', JStr V),
                       (''previous_version'', json_of_optional (get_current_version s)),
                       (''promoted_at'', JNum (now s)),
                       (''promoted_by'', JStr ''version_manager''),
                       (''force_promotion'', JBool force)]))
   \<and> (\<not> fst (snd (promote_version s V force)) \<longrightarrow>
        pointer_file (fst (promote_version s V force)) =
          (case pointer_fault s of
             DumpFails e \<Rightarrow>
               if list_ex (\<lambda>v. info_version v = V) (get_available_versions s) \<or> force
               then Some Unparsable else pointer_file s
           | _ \<Rightarrow> pointer_file s))
   \<and> (pointer_file (fst (promote_version s V force)) = Some Unparsable \<longrightarrow>
        get_current_version (fst (promote_version s V force)) = None)
   \<and> pointer_file (fst (set_current_version s V)) =
        (case pointer_fault s of
           NoFault \<Rightarrow>
             Some (JObject [(''version'', JStr V), (''updated_at'', JNum (now s)),
                            (''updated_by'', JStr ''api'')])
         | OpenFails e \<Rightarrow> pointer_file s
         | DumpFails e \<Rightarrow> Some Unparsable)
   \<and> (snd (set_current_version s V) \<longleftrightarrow> pointer_fault s = NoFault)"
proof (intro conjI impI)
  assume "fst (snd (promote_version s V force))"
  then show "pointer_file (fst (promote_version s V force)) =
      Some (JObject [(''version'', JStr V),
                     (''previous_version'', json_of_optional (get_current_version s)),
                     (''promoted_at'', JNum (now s)),
                     (''promoted_by'', JStr ''version_manager''),
                     (''force_promotion'', JBool force)])"
    by (rule promote_success_pointer)
next
  assume "\<not> fst (snd (promote_version s V force))"
  then show "pointer_file (fst (promote_version s V force)) =
      (case pointer_fault s of
         DumpFails e \<Rightarrow>
           if list_ex (\<lambda>v. info_version v = V) (get_available_versions s) \<or> force
           then Some Unparsable else pointer_file s
       | _ \<Rightarrow> pointer_file s)"
    by (rule promote_failure_pointer)
next
  assume "pointer_file (fst (promote_version s V force)) = Some Unparsable"
  then show "get_current_version (fst (promote_version s V force)) = None"
    by (simp add: get_current_version_def)
next
  show "pointer_file (fst (set_current_version s V)) =
      (case pointer_fault s of
         NoFault \<Rightarrow>
           Some (JObject [(''version'', JStr V), (''updated_at'', JNum (now s)),
                          (''updated_by'', JStr ''api'')])
       | OpenFails e \<Rightarrow> pointer_file s
       | DumpFails e \<Rightarrow> Some Unparsable)"
    by (simp add: set_current_version_def write_version_file_def split: io_fault.splits)
next
  show "snd (set_current_version s V) \<longleftrightarrow> pointer_fault s = NoFault"
    by (simp add: set_current_version_def write_version_file_def split: io_fault.splits)
qed

theorem pointer_written_in_place_witness:
  "fst (snd (promote_version two_versions ''v2'' True))
   \<and> pointer_file (fst (promote_version two_versions ''v2'' True)) =
       Some (JObject [(''version'', JStr ''v2''),
                      (''previous_version'', JStr ''v1''),
                      (''promoted_at'', JNum 50),
                      (''promoted_by'', JStr ''version_manager''),
                      (''force_promotion'', JBool True)])
   \<and> \<not> fst (snd (promote_version two_versions ''v9'' False))
   \<and> pointer_file (fst (promote_version two_versions ''v9'' False)) = pointer_file two_versions
   \<and> snd (set_current_version two_versions ''v2'')"
proof -
  have ok: "fst (snd (promote_version two_versions ''v2'' True))"
    by (simp add: example_defs promote_eval)
  have ko: "\<not> fst (snd (promote_version two_versions ''v9'' False))"
    by (simp add: example_defs promote_eval)
  have cur: "get_current_version two_versions = Some ''v1''"
    by (simp add: example_defs get_current_version_def)
  have env: "pointer_fault two_versions = NoFault" "now two_versions = 50"
    by (simp_all add: example_defs)
  show ?thesis
    using pointer_written_in_place [of two_versions "''v2''" True]
      pointer_written_in_place [of two_versions "''v9''" False] ok ko cur env
    by (simp add: json_of_optional_def)
qed

text \<open>
  C2 as stated fails: on a volume that accepts the open and fails the write, promoting
  \<^verbatim>\<open>v2\<close> over the current \<^verbatim>\<open>v1\<close> reports failure, and the pointer that stored \<^verbatim>\<open>v1\<close>
  is gone; a reader finds a truncated file and no current version.
\<close>

theorem promote_failure_loses_pointer_counterexample:
  "get_current_version disk_full = Some ''v1''
   \<and> snd (promote_version disk_full ''v2'' False) =
       (False, ''Error promoting version: No space left on device'')
   \<and> pointer_file (fst (promote_version disk_full ''v2'' False)) = Some Unparsable
   \<and> get_current_version (fst (promote_version disk_full ''v2'' False)) = None"
  by (simp add: example_defs promote_eval)

section \<open>Size-bounded eviction\<close>











section \<open>Acquiring a connection\<close>

lemma download_trace:
  "download_database_from_s3 s v = (s1, ok) \<Longrightarrow>
   db_connection s1 = db_connection s \<and> next_handle s1 = next_handle s \<and>
   pointer_file s1 = pointer_file s \<and> now s1 = now s \<and>
   inst_current_version s1 = inst_current_version s \<and>
   (trace s1 = trace s \<and> \<not> ok \<or> trace s1 = trace s @ [Download v, IntegrityCheck v ok])"
  by (auto simp: download_database_from_s3_def Let_def split: option.splits manifest_doc.splits if_splits)

lemma find_put_db:
  "find (\<lambda>g. db_version g = db_version db) (put_db db fs) = Some db"
proof -
  have a: "list_ex (\<lambda>g. db_version g = v) fs \<Longrightarrow> db_version db = v \<Longrightarrow>
      find (\<lambda>g. db_version g = v) (map (\<lambda>g. if db_version g = v then db else g) fs) = Some db" for v
    by (induction fs) auto
  have b: "\<not> list_ex (\<lambda>g. db_version g = v) fs \<Longrightarrow> db_version db = v \<Longrightarrow>
      find (\<lambda>g. db_version g = v) (fs @ [db]) = Some db" for v
    by (induction fs) auto
  show ?thesis using a [of "db_version db"] b [of "db_version db"]
    by (simp add: put_db_def)
qed

lemma download_ok:
  "download_database_from_s3 s v = (s1, True) \<Longrightarrow>
   trace s1 = trace s @ [Download v, IntegrityCheck v True] \<and>
   (\<exists>sz. find_db v s1 = Some \<lparr>db_version = v, st_size = sz, st_mtime = now s, intact = True\<rparr>)"
  using find_put_db [of "\<lparr>db_version = v, st_size = sz, st_mtime = now s, intact = True\<rparr>" "db_files s" for sz]
  by (auto simp: download_database_from_s3_def Let_def find_db_def
      split: option.splits manifest_doc.splits if_splits)


lemma acquire_none:
  "requested s version_arg = None \<Longrightarrow> get_database_connection s version_arg = (s, None)"
  by (simp add: get_database_connection_def requested_def)

lemma acquire_empty:
  "requested s version_arg = Some [] \<Longrightarrow> get_database_connection s version_arg = (s, None)"
  by (simp add: get_database_connection_def requested_def)

lemma acquire_reuse:
  "\<lbrakk>requested s version_arg = Some v; v \<noteq> []; inst_current_version s = Some v;
    is_cache_valid s v; db_connection s = Some h\<rbrakk>
   \<Longrightarrow> get_database_connection s version_arg = (s, Some h)"
  by (simp add: get_database_connection_def requested_def)

lemma acquire_open:
  "\<lbrakk>requested s version_arg = Some v; v \<noteq> []; is_cache_valid s v;
    inst_current_version s \<noteq> Some v \<or> db_connection s = None\<rbrakk>
   \<Longrightarrow> get_database_connection s version_arg =
         (open_new (close_existing s) v, db_connection (open_new (close_existing s) v))"
  by (auto simp: get_database_connection_def requested_def Let_def)

lemma acquire_download:
  "\<lbrakk>requested s version_arg = Some v; v \<noteq> []; \<not> is_cache_valid s v;
    download_database_from_s3 s v = (s1, ok)\<rbrakk>
   \<Longrightarrow> get_database_connection s version_arg =
         (if ok then (open_new (close_existing s1) v, db_connection (open_new (close_existing s1) v))
          else (s1, None))"
  by (auto simp: get_database_connection_def requested_def Let_def)

lemma acquire_cases [case_names none empty reuse reopen download]:
  assumes "requested s version_arg = None \<Longrightarrow> P"
    and "requested s version_arg = Some [] \<Longrightarrow> P"
    and "\<And>v h. \<lbrakk>requested s version_arg = Some v; v \<noteq> []; inst_current_version s = Some v;
            is_cache_valid s v; db_connection s = Some h\<rbrakk> \<Longrightarrow> P"
    and "\<And>v. \<lbrakk>requested s version_arg = Some v; v \<noteq> []; is_cache_valid s v;
            inst_current_version s \<noteq> Some v \<or> db_connection s = None\<rbrakk> \<Longrightarrow> P"
    and "\<And>v s1 ok. \<lbrakk>requested s version_arg = Some v; v \<noteq> []; \<not> is_cache_valid s v;
            download_database_from_s3 s v = (s1, ok)\<rbrakk> \<Longrightarrow> P"
  shows P
proof (cases "requested s version_arg")
  case None
  then show ?thesis by (rule assms(1))
next
  case (Some v)
  show ?thesis
  proof (cases "v = []")
    case True
    with Some show ?thesis by (auto intro: assms(2))
  next
    case nonempty: False
    show ?thesis
    proof (cases "is_cache_valid s v")
      case True
      show ?thesis
      proof (cases "inst_current_version s \<noteq> Some v \<or> db_connection s = None")
        case True
        with Some nonempty \<open>is_cache_valid s v\<close> show ?thesis by (rule assms(4))
      next
        case False
        then obtain h where "db_connection s = Some h" and "inst_current_version s = Some v"
          by auto
        with Some nonempty \<open>is_cache_valid s v\<close> show ?thesis by (auto intro: assms(3))
      qed
    next
      case False
      obtain s1 ok where "download_database_from_s3 s v = (s1, ok)"
        by (cases "download_database_from_s3 s v") auto
      with Some nonempty False show ?thesis by (rule assms(5))
    qed
  qed
qed

lemma download_keeps_pointer:
  "download_database_from_s3 s v = (s1, ok) \<Longrightarrow> get_current_version s1 = get_current_version s"
  by (auto simp: download_database_from_s3_def Let_def get_current_version_def
      split: option.splits manifest_doc.splits if_splits)

lemma requested_open_new [simp]:
  "requested (open_new (close_existing s) v) arg = requested s arg"
  by (simp add: requested_def open_new_def close_existing_def get_current_version_def
      split: option.splits)

lemma find_db_open_new [simp]:
  "find_db v (open_new (close_existing s) w) = find_db v s"
  by (simp add: find_db_def open_new_def close_existing_def split: option.splits)

lemma now_open_new [simp]: "now (open_new (close_existing s) w) = now s"
  by (simp add: open_new_def close_existing_def split: option.splits)

lemma is_cache_valid_open_new [simp]:
  "is_cache_valid (open_new (close_existing s) w) v = is_cache_valid s v"
  by (simp add: is_cache_valid_def split: option.splits)

lemma inst_current_version_open_new [simp]:
  "inst_current_version (open_new (close_existing s) v) = Some v"
  by (simp add: open_new_def)

text \<open>What a successful acquire leaves behind.\<close>

lemma acquire_success:
  assumes "get_database_connection s version_arg = (s1, Some h)"
  shows "\<exists>v db. requested s version_arg = Some v \<and> v \<noteq> [] \<and> requested s1 version_arg = Some v
           \<and> inst_current_version s1 = Some v \<and> db_connection s1 = Some h
           \<and> find_db v s1 = Some db \<and> intact db \<and> now s1 = now s"
proof (cases s version_arg rule: acquire_cases)
  case none
  with assms show ?thesis by (simp add: acquire_none)
next
  case empty
  with assms show ?thesis by (simp add: acquire_empty)
next
  case (reuse v g)
  with assms have "s1 = s" "h = g" by (simp_all add: acquire_reuse)
  with reuse show ?thesis
    by (auto simp: is_cache_valid_def split: option.splits if_splits)
next
  case (reopen v)
  with assms have s1: "s1 = open_new (close_existing s) v" and h: "db_connection s1 = Some h"
    by (auto simp: acquire_open)
  from reopen(3) obtain db where "find_db v s = Some db" "intact db"
    by (auto simp: is_cache_valid_def split: option.splits if_splits)
  with reopen s1 h show ?thesis
    by simp
next
  case (download v s2 ok)
  with assms have ok: ok by (auto simp: acquire_download split: if_splits)
  with download assms have s1: "s1 = open_new (close_existing s2) v"
    and h: "db_connection s1 = Some h"
    by (auto simp: acquire_download)
  from download(4) ok download_ok [of s v s2]
  obtain sz where f: "find_db v s2 = Some \<lparr>db_version = v, st_size = sz, st_mtime = now s, intact = True\<rparr>"
    by auto
  from download_trace [OF download(4)] have n: "now s2 = now s" by simp
  from download_keeps_pointer [OF download(4)] have "requested s2 version_arg = requested s version_arg"
    by (simp add: requested_def split: option.splits)
  with download s1 h f n show ?thesis
    by simp
qed

lemmas acquire_eval =
  get_database_connection_def requested_def get_current_version_def is_cache_valid_def
  find_db_def download_database_from_s3_def put_db_def put_manifest_def open_new_def
  close_existing_def DATABASE_CACHE_TTL_def Let_def

text \<open>
  C6. When the cached file of the requested version is older than the TTL,
  \<^verbatim>\<open>get_database_connection\<close> never hands out a connection on the strength of that file,
  whatever its content: it either returns \<^verbatim>\<open>None\<close> (the download or the check failed),
  or it has downloaded the snapshot again, run the integrity check on the download with
  success, closed the connection it held and opened a new one on the fresh file.
\<close>

theorem expired_cache_is_downloaded_again:
  assumes "requested s version_arg = Some v"
    and "find_db v s = Some db"
    and "now s - st_mtime db > DATABASE_CACHE_TTL"
  shows "snd (get_database_connection s version_arg) = None
         \<or> (snd (get_database_connection s version_arg) =
              Some \<lparr>handle_id = next_handle s, handle_version = v\<rparr>
            \<and> trace (fst (get_database_connection s version_arg)) =
                trace s @ [Download v, IntegrityCheck v True]
                  @ (case db_connection s of None \<Rightarrow> [] | Some h \<Rightarrow> [Closed (handle_id h)])
                  @ [Opened (next_handle s)]
            \<and> (\<exists>sz. find_db v (fst (get_database_connection s version_arg)) =
                  Some \<lparr>db_version = v, st_size = sz, st_mtime = now s, intact = True\<rparr>))"
proof -
  from assms(2,3) have invalid: "\<not> is_cache_valid s v"
    by (simp add: is_cache_valid_def)
  show ?thesis
  proof (cases "v = []")
    case True
    with assms(1) show ?thesis by (simp add: acquire_empty)
  next
    case False
    obtain s1 ok where d: "download_database_from_s3 s v = (s1, ok)"
      by (cases "download_database_from_s3 s v") auto
    note eq = acquire_download [OF assms(1) False invalid d]
    show ?thesis
    proof (cases ok)
      case False
      with eq show ?thesis by simp
    next
      case True
      from download_trace [OF d]
      have c: "db_connection s1 = db_connection s" and n: "next_handle s1 = next_handle s"
        by auto
      from d True download_ok [of s v s1]
      obtain sz where t: "trace s1 = trace s @ [Download v, IntegrityCheck v True]"
        and f: "find_db v s1 = Some \<lparr>db_version = v, st_size = sz, st_mtime = now s, intact = True\<rparr>"
        by auto
      from True eq c n t f show ?thesis
        by (auto simp: open_new_def close_existing_def find_db_def split: option.splits)
    qed
  qed
qed

theorem expired_cache_is_downloaded_again_witness:
  "requested serving None = Some ''v1''
   \<and> find_db ''v1'' serving = Some (cached ''v1'' 10 1000)
   \<and> now serving - st_mtime (cached ''v1'' 10 1000) > DATABASE_CACHE_TTL
   \<and> intact (cached ''v1'' 10 1000)
   \<and> snd (get_database_connection serving None) =
       Some \<lparr>handle_id = 1, handle_version = ''v1''\<rparr>
   \<and> trace (fst (get_database_connection serving None)) =
       [Opened 0, Download ''v1'', IntegrityCheck ''v1'' True, Closed 0, Opened 1]"
proof -
  have r: "requested serving None = Some ''v1''"
    by (simp add: example_defs requested_def get_current_version_def)
  have f: "find_db ''v1'' serving = Some (cached ''v1'' 10 1000)"
    by (simp add: example_defs find_db_def)
  have old: "now serving - st_mtime (cached ''v1'' 10 1000) > DATABASE_CACHE_TTL"
    by (simp add: example_defs DATABASE_CACHE_TTL_def)
  have some: "snd (get_database_connection serving None) \<noteq> None"
    by (simp add: example_defs acquire_eval)
  have env: "next_handle serving = 1" "trace serving = [Opened 0]"
    "db_connection serving = Some \<lparr>handle_id = 0, handle_version = ''v1''\<rparr>"
    by (simp_all add: example_defs)
  show ?thesis
    using expired_cache_is_downloaded_again [OF r f old] r f old some env
    by (simp add: cached_def)
qed

text \<open>
  C7. After \<^verbatim>\<open>get_database_connection\<close> has returned a connection for a version, a
  second call for the same version, with nothing evicted and the cached file still
  within the TTL at the time \<open>t\<close> of the second call, returns the very same connection
  and changes nothing: no download, no integrity check of a download, no new connection.
\<close>

theorem acquire_twice_reuses_connection:
  assumes "get_database_connection s version_arg = (s1, Some h)"
    and "requested s version_arg = Some v"
    and "find_db v s1 = Some db"
    and "t - st_mtime db \<le> DATABASE_CACHE_TTL"
  shows "get_database_connection (s1\<lparr>now := t\<rparr>) version_arg = (s1\<lparr>now := t\<rparr>, Some h)"
proof -
  from acquire_success [OF assms(1)] assms(2) assms(3) have
    ne: "v \<noteq> []" and r1: "requested s1 version_arg = Some v"
    and cur: "inst_current_version s1 = Some v" and con: "db_connection s1 = Some h"
    and i: "intact db"
    by auto
  from assms(3,4) i have valid: "is_cache_valid (s1\<lparr>now := t\<rparr>) v"
    by (simp add: is_cache_valid_def find_db_def)
  from r1 have r2: "requested (s1\<lparr>now := t\<rparr>) version_arg = Some v"
    by (cases version_arg) (simp_all add: requested_def get_current_version_def)
  show ?thesis
    using acquire_reuse [OF r2 ne _ valid, of h] cur con by simp
qed

theorem acquire_twice_reuses_connection_witness:
  "snd (get_database_connection serving None) = Some \<lparr>handle_id = 1, handle_version = ''v1''\<rparr>
   \<and> requested serving None = Some ''v1''
   \<and> find_db ''v1'' (fst (get_database_connection serving None)) = Some (cached ''v1'' 10 5000)
   \<and> 6000 - st_mtime (cached ''v1'' 10 5000) \<le> DATABASE_CACHE_TTL
   \<and> snd (get_database_connection ((fst (get_database_connection serving None))\<lparr>now := 6000\<rparr>) None)
       = Some \<lparr>handle_id = 1, handle_version = ''v1''\<rparr>
   \<and> trace (fst (get_database_connection
                   ((fst (get_database_connection serving None))\<lparr>now := 6000\<rparr>) None))
       = trace (fst (get_database_connection serving None))"
proof -
  have snd1: "snd (get_database_connection serving None) =
      Some \<lparr>handle_id = 1, handle_version = ''v1''\<rparr>"
    by (simp add: example_defs acquire_eval)
  then have first: "get_database_connection serving None =
      (fst (get_database_connection serving None), Some \<lparr>handle_id = 1, handle_version = ''v1''\<rparr>)"
    by (simp add: prod_eq_iff)
  have r: "requested serving None = Some ''v1''"
    by (simp add: example_defs requested_def get_current_version_def)
  have f: "find_db ''v1'' (fst (get_database_connection serving None)) =
      Some (cached ''v1'' 10 5000)"
    by (simp add: example_defs acquire_eval)
  have fresh: "6000 - st_mtime (cached ''v1'' 10 5000) \<le> DATABASE_CACHE_TTL"
    by (simp add: cached_def DATABASE_CACHE_TTL_def)
  show ?thesis
    using acquire_twice_reuses_connection [OF first r f fresh] snd1 r f fresh by simp
qed

section \<open>One open connection\<close>

lemma within_one_prefixes:
  "within_one hs es \<longleftrightarrow> (\<forall>n. length (foldl apply_event hs (take n es)) \<le> 1)"
proof (induction es arbitrary: hs)
  case Nil
  then show ?case by simp
next
  case (Cons e es)
  show ?case
  proof
    assume a: "within_one hs (e # es)"
    show "\<forall>n. length (foldl apply_event hs (take n (e # es))) \<le> 1"
    proof
      fix n
      show "length (foldl apply_event hs (take n (e # es))) \<le> 1"
        using a Cons.IH [of "apply_event hs e"] by (cases n) auto
    qed
  next
    assume b: "\<forall>n. length (foldl apply_event hs (take n (e # es))) \<le> 1"
    from b [rule_format, of 0] have h0: "length hs \<le> 1" by simp
    have "\<forall>n. length (foldl apply_event (apply_event hs e) (take n es)) \<le> 1"
    proof
      fix n
      from b [rule_format, of "Suc n"]
      show "length (foldl apply_event (apply_event hs e) (take n es)) \<le> 1" by simp
    qed
    with h0 Cons.IH [of "apply_event hs e"] show "within_one hs (e # es)" by simp
  qed
qed

lemma within_one_append:
  "within_one hs (es @ fs) \<longleftrightarrow> within_one hs es \<and> within_one (foldl apply_event hs es) fs"
  by (induction es arbitrary: hs) (auto, (cases fs; simp)+)

lemma open_handles_append:
  "open_handles (es @ fs) = foldl apply_event (open_handles es) fs"
  by (simp add: open_handles_def)

lemma disciplined_download:
  assumes "disciplined s" and "download_database_from_s3 s v = (s1, ok)"
  shows "disciplined s1"
proof -
  from download_trace [OF assms(2)]
  have c: "db_connection s1 = db_connection s"
    and t: "trace s1 = trace s \<or> trace s1 = trace s @ [Download v, IntegrityCheck v ok]"
    by auto
  from assms(1) have h: "length (held s) \<le> 1" by (simp add: held_def split: option.splits)
  from t show ?thesis
  proof
    assume "trace s1 = trace s"
    with assms(1) c show ?thesis by (simp add: disciplined_def held_def)
  next
    assume "trace s1 = trace s @ [Download v, IntegrityCheck v ok]"
    with assms(1) c h show ?thesis
      by (simp add: disciplined_def held_def within_one_append open_handles_append
          open_handles_def [symmetric])
  qed
qed

lemma disciplined_open_new:
  assumes "disciplined s"
  shows "disciplined (open_new (close_existing s) v)"
proof (cases "db_connection s")
  case None
  with assms show ?thesis
    by (simp add: disciplined_def held_def open_new_def close_existing_def within_one_append
        open_handles_append open_handles_def [symmetric])
next
  case (Some h)
  with assms show ?thesis
    by (simp add: disciplined_def held_def open_new_def close_existing_def within_one_append
        open_handles_append open_handles_def [symmetric])
qed

lemma disciplined_acquire:
  assumes "disciplined s"
  shows "disciplined (fst (get_database_connection s version_arg))"
proof (cases s version_arg rule: acquire_cases)
  case none
  with assms show ?thesis by (simp add: acquire_none)
next
  case empty
  with assms show ?thesis by (simp add: acquire_empty)
next
  case (reuse v h)
  with assms show ?thesis by (simp add: acquire_reuse)
next
  case (reopen v)
  with disciplined_open_new [OF assms, of v] show ?thesis by (simp add: acquire_open)
next
  case (download v s1 ok)
  have s1: "disciplined s1" by (rule disciplined_download [OF assms download(4)])
  with download disciplined_open_new [OF s1, of v] show ?thesis
    by (simp add: acquire_download)
qed

lemma disciplined_close: "disciplined s \<Longrightarrow> disciplined (close s)"
  by (cases "db_connection s")
    (simp_all add: disciplined_def held_def close_def within_one_append open_handles_append
      open_handles_def [symmetric])

lemma reachable_disciplined: "reachable s \<Longrightarrow> disciplined s"
proof (induction rule: reachable.induct)
  case (init s)
  show ?case
    by (simp add: disciplined_def DatabaseManager_init_def held_def open_handles_def)
next
  case (acquire s version_arg)
  then show ?case by (simp add: disciplined_acquire)
next
  case (closed s)
  then show ?case by (simp add: disciplined_close)
next
  case (outside s s')
  then show ?case by (simp add: disciplined_def held_def)
qed

lemma close_before_open:
  assumes "db_connection s = Some h"
    and "snd (get_database_connection s version_arg) = Some h'"
    and "trace (fst (get_database_connection s version_arg)) \<noteq> trace s"
  shows "\<exists>ds. trace (fst (get_database_connection s version_arg)) =
           trace s @ ds @ [Closed (handle_id h), Opened (handle_id h')]"
proof (cases s version_arg rule: acquire_cases)
  case none
  with assms show ?thesis by (simp add: acquire_none)
next
  case empty
  with assms show ?thesis by (simp add: acquire_empty)
next
  case (reuse v g)
  with assms show ?thesis by (simp add: acquire_reuse)
next
  case (reopen v)
  with assms show ?thesis
    by (intro exI [of _ "[]"]) (auto simp: acquire_open open_new_def close_existing_def)
next
  case (download v s1 ok)
  from download_trace [OF download(4)]
  have c: "db_connection s1 = db_connection s"
    and t: "trace s1 = trace s \<and> \<not> ok \<or> trace s1 = trace s @ [Download v, IntegrityCheck v ok]"
    by auto
  show ?thesis
  proof (cases ok)
    case True
    with t have "trace s1 = trace s @ [Download v, IntegrityCheck v True]" by auto
    with True download c assms show ?thesis
      by (intro exI [of _ "[Download v, IntegrityCheck v True]"])
        (auto simp: acquire_download open_new_def close_existing_def)
  next
    case False
    with download assms show ?thesis by (simp add: acquire_download)
  qed
qed

text \<open>
  C9. In every state a manager instance can reach, at every point of its history at
  most one of its connections is open, and the open one is the one it holds. Whenever
  \<^verbatim>\<open>get_database_connection\<close> opens a connection while one is held (a switch to another
  version, or a refresh of an invalid entry), the close of the held connection comes
  immediately before the open of the new one.
\<close>

theorem at_most_one_open_connection:
  "reachable s \<Longrightarrow>
   (\<forall>n. length (open_handles (take n (trace s))) \<le> 1)
   \<and> open_handles (trace s) = held s
   \<and> (\<forall>version_arg h h'.
        db_connection s = Some h
        \<and> snd (get_database_connection s version_arg) = Some h'
        \<and> trace (fst (get_database_connection s version_arg)) \<noteq> trace s \<longrightarrow>
        (\<exists>ds. trace (fst (get_database_connection s version_arg)) =
           trace s @ ds @ [Closed (handle_id h), Opened (handle_id h')]))"
proof -
  assume r: "reachable s"
  then have d: "disciplined s" by (rule reachable_disciplined)
  then have "\<forall>n. length (open_handles (take n (trace s))) \<le> 1"
    by (simp add: disciplined_def within_one_prefixes open_handles_def)
  with d show ?thesis
    by (auto simp: disciplined_def intro: close_before_open)
qed

theorem at_most_one_open_connection_witness:
  "reachable (fst (get_database_connection
                    (fst (get_database_connection (DatabaseManager_init serving) None)) (Some ''v1'')))
   \<and> (\<forall>n. length (open_handles (take n
          (trace (fst (get_database_connection
                    (fst (get_database_connection (DatabaseManager_init serving) None))
                    (Some ''v1'')))))) \<le> 1)
   \<and> trace (fst (get_database_connection (DatabaseManager_init serving) None)) =
       [Download ''v1'', IntegrityCheck ''v1'' True, Opened 0]"
proof -
  have r: "reachable (fst (get_database_connection
      (fst (get_database_connection (DatabaseManager_init serving) None)) (Some ''v1'')))"
    by (intro reachable.acquire reachable.init)
  have t: "trace (fst (get_database_connection (DatabaseManager_init serving) None)) =
      [Download ''v1'', IntegrityCheck ''v1'' True, Opened 0]"
    by (simp add: example_defs acquire_eval DatabaseManager_init_def)
  show ?thesis
    using at_most_one_open_connection [OF r] r t by simp
qed

end
